theory Spec2Isabelle
  imports Complex_Main
begin

section \<open>Data model\<close>

text \<open>
  The detection engine of the scanner (\<^verbatim>\<open>ema\<close>, \<^verbatim>\<open>detectTrendHTF\<close>, \<^verbatim>\<open>findPivots\<close>,
  \<^verbatim>\<open>approxEqual\<close>, the four pattern detectors, \<^verbatim>\<open>buildPatternSignal\<close> and
  \<^verbatim>\<open>detectPatternWithConfluence\<close>) is embedded function by function.

  Prices are JavaScript numbers. They are modelled as finite real numbers with exact
  arithmetic: rounding, NaN and signed zeros of the parsed input are outside the model.
  The only operation of the engine that can leave the finite numbers on finite input is a
  division by zero; its IEEE result is written out in \<open>js_div\<close>.
  A candle's \<^verbatim>\<open>time\<close> is a valid \<^verbatim>\<open>Date\<close>, modelled by its epoch milliseconds, and
  \<^verbatim>\<open>toISOString\<close> by the identity on them.
\<close>

record candle =
  time :: int
  open_price :: real
  high :: real
  low :: real
  close :: real

text \<open>The object \<^verbatim>\<open>{ trend, reason }\<close> returned by \<^verbatim>\<open>detectTrendHTF\<close>.\<close>

record trend_result =
  trend :: string
  reason :: string

text \<open>The object \<^verbatim>\<open>{ highs, lows }\<close> returned by \<^verbatim>\<open>findPivots\<close>.\<close>

record pivots =
  highs :: "nat list"
  lows :: "nat list"

text \<open>
  A detector's result \<^verbatim>\<open>{ type, indices }\<close>. The \<^verbatim>\<open>indices\<close> object keeps its keys in
  insertion order, so it is an association list.
\<close>

record pattern_result =
  type :: string
  indices :: "(string \<times> nat) list"

text \<open>
  The object built by \<^verbatim>\<open>buildPatternSignal\<close>; \<^verbatim>\<open>from\<close> and \<^verbatim>\<open>to\<close> are \<^verbatim>\<open>null\<close>
  (\<open>None\<close>) or a time.
\<close>

record signal =
  direction :: string
  pattern :: string
  timeframe :: string
  sig_from :: "int option"
  sig_to :: "int option"

text \<open>Results of a JavaScript division of finite numbers, and \<^verbatim>\<open>x < c\<close> on them.\<close>

datatype jsnum = Finite real | PosInfinity | NegInfinity | NaN

definition js_div :: "real \<Rightarrow> real \<Rightarrow> jsnum" where
  "js_div x y =
     (if y \<noteq> 0 then Finite (x / y)
      else if x > 0 then PosInfinity
      else if x < 0 then NegInfinity
      else NaN)"

fun js_less :: "jsnum \<Rightarrow> real \<Rightarrow> bool" where
  "js_less (Finite v) c = (v < c)"
| "js_less PosInfinity c = False"
| "js_less NegInfinity c = True"
| "js_less NaN c = False"

text \<open>\<^verbatim>\<open>a || b\<close> on values that are \<^verbatim>\<open>null\<close> or an object.\<close>

fun js_or :: "'a option \<Rightarrow> 'a option \<Rightarrow> 'a option" where
  "js_or (Some a) b = Some a"
| "js_or None b = b"

text \<open>\<^verbatim>\<open>xs.slice(-n)\<close>: the last \<open>n\<close> elements, all of them when there are fewer.\<close>

definition slice_last :: "nat \<Rightarrow> 'a list \<Rightarrow> 'a list" where
  "slice_last n xs = drop (length xs - n) xs"

section \<open>Trend classification\<close>

text \<open>
  \<^verbatim>\<open>ema(values, period)\<close>. The loop \<^verbatim>\<open>for (let i = period; i < values.length; i++)\<close>
  carries \<^verbatim>\<open>prevEma\<close> and the \<^verbatim>\<open>result\<close> array. The callers pass the periods 50 and 200.
\<close>

function ema_loop :: "real list \<Rightarrow> real \<Rightarrow> nat \<Rightarrow> real \<Rightarrow> real list \<Rightarrow> real list" where
  "ema_loop values k i prevEma result =
     (if i < length values then
        (let prevEma' = values ! i * k + prevEma * (1 - k)
         in ema_loop values k (i + 1) prevEma' (result @ [prevEma']))
      else result)"
  by pat_completeness auto
termination
  by (relation "measure (\<lambda>(values, k, i, prevEma, result). length values - i)") auto

declare ema_loop.simps [simp del]

definition ema :: "real list \<Rightarrow> nat \<Rightarrow> real list" where
  "ema values period =
     (if length values < period then []
      else
        let k = 2 / (real period + 1);
            prevEma = fold (\<lambda>v sum. sum + v) (take period values) 0 / real period
        in ema_loop values k period prevEma [prevEma])"

definition detectTrendHTF :: "candle list \<Rightarrow> trend_result" where
  "detectTrendHTF candles =
     (if length candles < 60 then \<lparr>trend = ''neutral'', reason = ''Not enough data''\<rparr>
      else
        let closes = map close candles;
            ema50 = ema closes 50;
            ema200 = ema closes 200
        in if length ema200 = 0 then \<lparr>trend = ''neutral'', reason = ''Not enough EMA data''\<rparr>
           else
             let lastClose = closes ! (length closes - 1);
                 lastEma50 = ema50 ! (length ema50 - 1);
                 lastEma200 = ema200 ! (length ema200 - 1)
             in if lastClose > lastEma50 \<and> lastEma50 > lastEma200
                then \<lparr>trend = ''bullish'', reason = ''Close > EMA50 > EMA200''\<rparr>
                else if lastClose < lastEma50 \<and> lastEma50 < lastEma200
                then \<lparr>trend = ''bearish'', reason = ''Close < EMA50 < EMA200''\<rparr>
                else \<lparr>trend = ''sideways'', reason = ''Mixed EMAs''\<rparr>)"


section \<open>Pivot extraction\<close>

text \<open>
  \<^verbatim>\<open>findPivots(candles, lookback)\<close>. The inner loop over the window
  \<^verbatim>\<open>j = i - lookback .. i + lookback\<close> carries the two flags; the outer loop over
  \<^verbatim>\<open>i = lookback .. candles.length - lookback - 1\<close> carries the two arrays. Every read
  \<^verbatim>\<open>candles[j]\<close> is in range, since \<open>j \<le> i + lookback < length candles\<close>.
\<close>

function findPivots_window ::
  "candle list \<Rightarrow> nat \<Rightarrow> nat \<Rightarrow> nat \<Rightarrow> bool \<times> bool \<Rightarrow> bool \<times> bool" where
  "findPivots_window candles lookback i j (isHigh, isLow) =
     (if j \<le> i + lookback then
        findPivots_window candles lookback i (j + 1)
          (if high (candles ! j) > high (candles ! i) then False else isHigh,
           if low (candles ! j) < low (candles ! i) then False else isLow)
      else (isHigh, isLow))"
  by pat_completeness auto
termination
  by (relation "measure (\<lambda>(candles, lookback, i, j, fl). Suc (i + lookback) - j)") auto

declare findPivots_window.simps [simp del]

function findPivots_loop :: "candle list \<Rightarrow> nat \<Rightarrow> nat \<Rightarrow> pivots \<Rightarrow> pivots" where
  "findPivots_loop candles lookback i acc =
     (if int i < int (length candles) - int lookback then
        (case findPivots_window candles lookback i (i - lookback) (True, True) of
           (isHigh, isLow) \<Rightarrow>
             findPivots_loop candles lookback (i + 1)
               \<lparr>highs = (if isHigh then highs acc @ [i] else highs acc),
                lows = (if isLow then lows acc @ [i] else lows acc)\<rparr>)
      else acc)"
  by pat_completeness auto
termination
  by (relation "measure (\<lambda>(candles, lookback, i, acc). length candles - i)") auto

declare findPivots_loop.simps [simp del]

definition findPivots :: "candle list \<Rightarrow> nat \<Rightarrow> pivots" where
  "findPivots candles lookback =
     findPivots_loop candles lookback lookback \<lparr>highs = [], lows = []\<rparr>"

text \<open>The window conditions of the specification.\<close>

definition highPivotAt :: "candle list \<Rightarrow> nat \<Rightarrow> nat \<Rightarrow> bool" where
  "highPivotAt candles lookback i \<longleftrightarrow>
     (\<forall>j \<in> {i - lookback .. i + lookback}. high (candles ! j) \<le> high (candles ! i))"

definition lowPivotAt :: "candle list \<Rightarrow> nat \<Rightarrow> nat \<Rightarrow> bool" where
  "lowPivotAt candles lookback i \<longleftrightarrow>
     (\<forall>j \<in> {i - lookback .. i + lookback}. low (candles ! i) \<le> low (candles ! j))"

section \<open>Tolerance\<close>

text \<open>
  \<^verbatim>\<open>approxEqual(a, b, tolerance)\<close>. \<open>approxEqual_avg\<close> is its local \<^verbatim>\<open>avg\<close>, the divisor:
  \<^verbatim>\<open>(Math.abs(a) + Math.abs(b)) / 2 || 1\<close> replaces a zero average by 1.
\<close>

definition approxEqual_avg :: "real \<Rightarrow> real \<Rightarrow> real" where
  "approxEqual_avg a b =
     (let avg = (\<bar>a\<bar> + \<bar>b\<bar>) / 2 in if avg = 0 then 1 else avg)"

definition approxEqual :: "real \<Rightarrow> real \<Rightarrow> real \<Rightarrow> bool" where
  "approxEqual a b tolerance =
     (let diff = \<bar>a - b\<bar>;
          avg = approxEqual_avg a b
      in diff / avg \<le> tolerance)"

text \<open>The tolerance rule as the specification words it, for a given epsilon.\<close>

definition approxEqual_spec :: "real \<Rightarrow> real \<Rightarrow> real \<Rightarrow> real \<Rightarrow> bool" where
  "approxEqual_spec epsilon a b t \<longleftrightarrow>
     \<bar>a - b\<bar> / max ((\<bar>a\<bar> + \<bar>b\<bar>) / 2) epsilon \<le> t"

section \<open>Pattern detectors\<close>

text \<open>
  \<^verbatim>\<open>detectMTop(candles)\<close>. The loop \<^verbatim>\<open>for (let i = lastHighs.length - 2; i >= 1; i--)\<close>
  reads the pair \<^verbatim>\<open>lastHighs[i - 1]\<close>, \<^verbatim>\<open>lastHighs[i]\<close>; each \<^verbatim>\<open>continue\<close> is the
  recursive call at \<open>i - 1\<close>.
\<close>

function detectMTop_loop ::
  "candle list \<Rightarrow> nat list \<Rightarrow> nat list \<Rightarrow> int \<Rightarrow> pattern_result option" where
  "detectMTop_loop candles lastHighs lows' i =
     (if i \<ge> 1 then
        (let h1Idx = lastHighs ! nat (i - 1);
             h2Idx = lastHighs ! nat i;
             midLows = filter (\<lambda>x. x > h1Idx \<and> x < h2Idx) lows'
         in if length midLows = 0 then detectMTop_loop candles lastHighs lows' (i - 1)
            else
              let lIdx = midLows ! 0;
                  h1 = high (candles ! h1Idx);
                  h2 = high (candles ! h2Idx);
                  low' = low (candles ! lIdx)
              in if \<not> approxEqual h1 h2 0.015 then detectMTop_loop candles lastHighs lows' (i - 1)
                 else
                   let dropPerc = js_div (max h1 h2 - low') (max h1 h2)
                   in if js_less dropPerc 0.01 then detectMTop_loop candles lastHighs lows' (i - 1)
                      else Some \<lparr>type = ''M-top'',
                                 indices = [(''h1Idx'', h1Idx), (''h2Idx'', h2Idx), (''lIdx'', lIdx)]\<rparr>)
      else None)"
  by pat_completeness auto
termination
  apply (relation "measure (\<lambda>(candles, lastHighs, lows', i). nat i)")
    apply (rule wf_measure)
   apply (simp_all only: in_measure prod.case)
   apply linarith+
  done

declare detectMTop_loop.simps [simp del]

definition detectMTop :: "candle list \<Rightarrow> pattern_result option" where
  "detectMTop candles =
     (let p = findPivots candles 2
      in if length (highs p) < 2 \<or> length (lows p) < 1 then None
         else
           let lastHighs = slice_last 4 (highs p)
           in detectMTop_loop candles lastHighs (lows p) (int (length lastHighs) - 2))"

text \<open>\<^verbatim>\<open>detectInvertedM(candles)\<close>, the mirror image on low pivots.\<close>

function detectInvertedM_loop ::
  "candle list \<Rightarrow> nat list \<Rightarrow> nat list \<Rightarrow> int \<Rightarrow> pattern_result option" where
  "detectInvertedM_loop candles lastLows highs' i =
     (if i \<ge> 1 then
        (let l1Idx = lastLows ! nat (i - 1);
             l2Idx = lastLows ! nat i;
             midHighs = filter (\<lambda>x. x > l1Idx \<and> x < l2Idx) highs'
         in if length midHighs = 0 then detectInvertedM_loop candles lastLows highs' (i - 1)
            else
              let hIdx = midHighs ! 0;
                  l1 = low (candles ! l1Idx);
                  l2 = low (candles ! l2Idx);
                  high' = high (candles ! hIdx)
              in if \<not> approxEqual l1 l2 0.015
                 then detectInvertedM_loop candles lastLows highs' (i - 1)
                 else
                   let risePerc = js_div (high' - min l1 l2) (min l1 l2)
                   in if js_less risePerc 0.01
                      then detectInvertedM_loop candles lastLows highs' (i - 1)
                      else Some \<lparr>type = ''Inverted M'',
                                 indices = [(''l1Idx'', l1Idx), (''l2Idx'', l2Idx), (''hIdx'', hIdx)]\<rparr>)
      else None)"
  by pat_completeness auto
termination
  apply (relation "measure (\<lambda>(candles, lastLows, highs', i). nat i)")
    apply (rule wf_measure)
   apply (simp_all only: in_measure prod.case)
   apply linarith+
  done

declare detectInvertedM_loop.simps [simp del]

definition detectInvertedM :: "candle list \<Rightarrow> pattern_result option" where
  "detectInvertedM candles =
     (let p = findPivots candles 2
      in if length (lows p) < 2 \<or> length (highs p) < 1 then None
         else
           let lastLows = slice_last 4 (lows p)
           in detectInvertedM_loop candles lastLows (highs p) (int (length lastLows) - 2))"

text \<open>
  \<^verbatim>\<open>detectHeadAndShoulders(candles)\<close>. The loop
  \<^verbatim>\<open>for (let i = lastHighs.length - 3; i >= 0; i--)\<close> reads the group
  \<^verbatim>\<open>lastHighs[i]\<close>, \<^verbatim>\<open>lastHighs[i + 1]\<close>, \<^verbatim>\<open>lastHighs[i + 2]\<close>.
\<close>

function detectHeadAndShoulders_loop ::
  "candle list \<Rightarrow> nat list \<Rightarrow> nat list \<Rightarrow> int \<Rightarrow> pattern_result option" where
  "detectHeadAndShoulders_loop candles lastHighs lows' i =
     (if i \<ge> 0 then
        (let lsIdx = lastHighs ! nat i;
             headIdx = lastHighs ! nat (i + 1);
             rsIdx = lastHighs ! nat (i + 2);
             ls = high (candles ! lsIdx);
             head = high (candles ! headIdx);
             rs = high (candles ! rsIdx)
         in if \<not> (head > ls * 1.01 \<and> head > rs * 1.01)
            then detectHeadAndShoulders_loop candles lastHighs lows' (i - 1)
            else if \<not> approxEqual ls rs 0.02
            then detectHeadAndShoulders_loop candles lastHighs lows' (i - 1)
            else
              let neckLows = filter (\<lambda>x. x > lsIdx \<and> x < rsIdx) lows'
              in if length neckLows < 2
                 then detectHeadAndShoulders_loop candles lastHighs lows' (i - 1)
                 else
                   let n1Idx = neckLows ! 0;
                       n2Idx = neckLows ! (length neckLows - 1);
                       n1 = low (candles ! n1Idx);
                       n2 = low (candles ! n2Idx)
                   in if \<not> approxEqual n1 n2 0.02
                      then detectHeadAndShoulders_loop candles lastHighs lows' (i - 1)
                      else Some \<lparr>type = ''Head & Shoulders'',
                                 indices = [(''lsIdx'', lsIdx), (''headIdx'', headIdx),
                                            (''rsIdx'', rsIdx), (''n1Idx'', n1Idx),
                                            (''n2Idx'', n2Idx)]\<rparr>)
      else None)"
  by pat_completeness auto
termination
  apply (relation "measure (\<lambda>(candles, lastHighs, lows', i). nat (i + 1))")
    apply (rule wf_measure)
   apply (simp_all only: in_measure prod.case)
   apply linarith+
  done

declare detectHeadAndShoulders_loop.simps [simp del]

definition detectHeadAndShoulders :: "candle list \<Rightarrow> pattern_result option" where
  "detectHeadAndShoulders candles =
     (let p = findPivots candles 2
      in if length (highs p) < 3 \<or> length (lows p) < 2 then None
         else
           let lastHighs = slice_last 6 (highs p)
           in if length lastHighs < 3 then None
              else detectHeadAndShoulders_loop candles lastHighs (lows p)
                     (int (length lastHighs) - 3))"

text \<open>\<^verbatim>\<open>detectInverseHeadAndShoulders(candles)\<close>, the mirror image on low pivots.\<close>

function detectInverseHeadAndShoulders_loop ::
  "candle list \<Rightarrow> nat list \<Rightarrow> nat list \<Rightarrow> int \<Rightarrow> pattern_result option" where
  "detectInverseHeadAndShoulders_loop candles lastLows highs' i =
     (if i \<ge> 0 then
        (let lsIdx = lastLows ! nat i;
             headIdx = lastLows ! nat (i + 1);
             rsIdx = lastLows ! nat (i + 2);
             ls = low (candles ! lsIdx);
             head = low (candles ! headIdx);
             rs = low (candles ! rsIdx)
         in if \<not> (head < ls * 0.99 \<and> head < rs * 0.99)
            then detectInverseHeadAndShoulders_loop candles lastLows highs' (i - 1)
            else if \<not> approxEqual ls rs 0.02
            then detectInverseHeadAndShoulders_loop candles lastLows highs' (i - 1)
            else
              let neckHighs = filter (\<lambda>x. x > lsIdx \<and> x < rsIdx) highs'
              in if length neckHighs < 2
                 then detectInverseHeadAndShoulders_loop candles lastLows highs' (i - 1)
                 else
                   let n1Idx = neckHighs ! 0;
                       n2Idx = neckHighs ! (length neckHighs - 1);
                       n1 = high (candles ! n1Idx);
                       n2 = high (candles ! n2Idx)
                   in if \<not> approxEqual n1 n2 0.02
                      then detectInverseHeadAndShoulders_loop candles lastLows highs' (i - 1)
                      else Some \<lparr>type = ''Inverse Head & Shoulders'',
                                 indices = [(''lsIdx'', lsIdx), (''headIdx'', headIdx),
                                            (''rsIdx'', rsIdx), (''n1Idx'', n1Idx),
                                            (''n2Idx'', n2Idx)]\<rparr>)
      else None)"
  by pat_completeness auto
termination
  apply (relation "measure (\<lambda>(candles, lastLows, highs', i). nat (i + 1))")
    apply (rule wf_measure)
   apply (simp_all only: in_measure prod.case)
   apply linarith+
  done

declare detectInverseHeadAndShoulders_loop.simps [simp del]

definition detectInverseHeadAndShoulders :: "candle list \<Rightarrow> pattern_result option" where
  "detectInverseHeadAndShoulders candles =
     (let p = findPivots candles 2
      in if length (lows p) < 3 \<or> length (highs p) < 2 then None
         else
           let lastLows = slice_last 6 (lows p)
           in if length lastLows < 3 then None
              else detectInverseHeadAndShoulders_loop candles lastLows (highs p)
                     (int (length lastLows) - 3))"

section \<open>Signal builder and confluence gate\<close>

text \<open>
  \<^verbatim>\<open>buildPatternSignal(direction, tfLabel, patternResult, candles)\<close>.
  \<^verbatim>\<open>Object.values(indices)\<close> are the values of the association list; all of them are
  integers, so the \<^verbatim>\<open>Number.isInteger\<close> filter keeps them. \<^verbatim>\<open>Math.min(...xs)\<close> and
  \<^verbatim>\<open>Math.max(...xs)\<close> fold over a non-empty array, and \<^verbatim>\<open>candles[i]?.time || null\<close>
  is \<^verbatim>\<open>null\<close> exactly when \<open>i\<close> is out of range.
\<close>

fun js_min :: "nat list \<Rightarrow> nat" where
  "js_min [] = 0"
| "js_min (x # xs) = fold min xs x"

fun js_max :: "nat list \<Rightarrow> nat" where
  "js_max [] = 0"
| "js_max (x # xs) = fold max xs x"

definition time_at :: "candle list \<Rightarrow> nat \<Rightarrow> int option" where
  "time_at candles i = (if i < length candles then Some (time (candles ! i)) else None)"

definition buildPatternSignal ::
  "string \<Rightarrow> string \<Rightarrow> pattern_result \<Rightarrow> candle list \<Rightarrow> signal" where
  "buildPatternSignal direction' tfLabel patternResult candles =
     (let indexValues = map snd (indices patternResult);
          (from, to) =
            (if length indexValues > 0 then
               (let startIdx = js_min indexValues;
                    endIdx = js_max indexValues
                in (time_at candles startIdx, time_at candles endIdx))
             else (None, None))
      in \<lparr>direction = direction',
          pattern = type patternResult,
          timeframe = tfLabel,
          sig_from = from,
          sig_to = to\<rparr>)"

text \<open>
  \<^verbatim>\<open>detectPatternWithConfluence(candles, tfLabel, dayTrend, weekTrend)\<close>. A condition
  \<^verbatim>\<open>flag && (a || b)\<close> is truthy exactly when the flag holds and \<open>js_or a b\<close> is an
  object, which is then the pattern \<open>p\<close>.
\<close>

definition detectPatternWithConfluence ::
  "candle list \<Rightarrow> string \<Rightarrow> trend_result \<Rightarrow> trend_result \<Rightarrow> signal option" where
  "detectPatternWithConfluence candles tfLabel dayTrend weekTrend =
     (let mTop = detectMTop candles;
          invM = detectInvertedM candles;
          hs = detectHeadAndShoulders candles;
          invHs = detectInverseHeadAndShoulders candles;
          isBearishHTF = (trend dayTrend = ''bearish'' \<and> trend weekTrend = ''bearish'');
          isBullishHTF = (trend dayTrend = ''bullish'' \<and> trend weekTrend = ''bullish'')
      in case (if isBearishHTF then js_or mTop hs else None) of
           Some p \<Rightarrow> Some (buildPatternSignal ''bearish'' tfLabel p candles)
         | None \<Rightarrow>
             (case (if isBullishHTF then js_or invM invHs else None) of
                Some p \<Rightarrow> Some (buildPatternSignal ''bullish'' tfLabel p candles)
              | None \<Rightarrow> None))"

section \<open>The Head-and-Shoulders search of the specification\<close>








section \<open>Synthetic series\<close>

text \<open>
  Hourly candles given by their (high, low) pairs; a candle opens at its low and closes at
  its high.
\<close>

definition series_of :: "(real \<times> real) list \<Rightarrow> candle list" where
  "series_of hl =
     map (\<lambda>(i, (h, l)). \<lparr>time = 3600000 * int i, open_price = l, high = h, low = l, close = h\<rparr>)
       (enumerate 0 hl)"

text \<open>Seven candles with one common high and rising lows.\<close>

definition flat_top_series :: "candle list" where
  "flat_top_series =
     series_of [(100, 90), (100, 91), (100, 92), (100, 93), (100, 94), (100, 95), (100, 96)]"

text \<open>Five candles, the middle one with the highest high and the lowest low.\<close>

definition outside_bar_series :: "candle list" where
  "outside_bar_series = series_of [(100, 90), (100, 90), (120, 70), (100, 90), (100, 90)]"

text \<open>
  Two tops, 1000 at index 2 and 1010 at index 6 (1\% apart), with a trough of 980 at
  index 4 (2\% below the first top).
\<close>

definition two_tops_series :: "candle list" where
  "two_tops_series =
     series_of [(990, 985), (995, 986), (1000, 987), (995, 985), (990, 980),
                (995, 985), (1010, 987), (995, 986), (990, 985)]"

text \<open>
  Three tops at the indices 2, 10 and 14; between the first two, a low pivot of 975 at
  index 4 and a deeper one of 960 at index 7.
\<close>

definition three_tops_series :: "candle list" where
  "three_tops_series =
     series_of [(990, 985), (995, 986), (1000, 987), (995, 985), (990, 975), (992, 980),
                (991, 978), (985, 960), (990, 970), (995, 980), (1005, 990), (995, 985),
                (990, 980), (995, 985), (1002, 990), (995, 985), (990, 980)]"

text \<open>
  The mirror image: three bottoms at the indices 2, 10 and 14; between the first two, a
  high pivot of 1025 at index 4 and a higher one of 1040 at index 7.
\<close>

definition three_bottoms_series :: "candle list" where
  "three_bottoms_series =
     series_of [(1015, 1010), (1014, 1005), (1013, 1000), (1015, 1005), (1025, 1010),
                (1020, 1008), (1022, 1009), (1040, 1015), (1030, 1010), (1020, 1005),
                (1010, 995), (1015, 1005), (1020, 1010), (1015, 1005), (1010, 998),
                (1015, 1005), (1020, 1010)]"



section \<open>Pivot extraction: what the loops compute\<close>

lemma findPivots_window_eq:
  "findPivots_window candles lookback i j fl =
     (fst fl \<and> (\<forall>k \<in> {j .. i + lookback}. high (candles ! k) \<le> high (candles ! i)),
      snd fl \<and> (\<forall>k \<in> {j .. i + lookback}. low (candles ! i) \<le> low (candles ! k)))"
proof (induction candles lookback i j fl rule: findPivots_window.induct)
  case (1 candles lookback i j isHigh isLow)
  show ?case
  proof (cases "j \<le> i + lookback")
    case True
    have split: "{j .. i + lookback} = insert j {j + 1 .. i + lookback}"
      using True by auto
    show ?thesis
      using True 1
      by (subst findPivots_window.simps, simp only: if_True split)
         (auto simp: not_less)
  next
    case False
    then show ?thesis
      by (subst findPivots_window.simps) simp
  qed
qed

lemma findPivots_window_start:
  "findPivots_window candles lookback i (i - lookback) (True, True) =
     (highPivotAt candles lookback i, lowPivotAt candles lookback i)"
  by (simp add: findPivots_window_eq highPivotAt_def lowPivotAt_def)

lemma findPivots_loop_eq:
  "findPivots_loop candles lookback i acc =
     \<lparr>highs = highs acc @ filter (highPivotAt candles lookback) [i ..< length candles - lookback],
      lows = lows acc @ filter (lowPivotAt candles lookback) [i ..< length candles - lookback]\<rparr>"
proof (induction candles lookback i acc rule: findPivots_loop.induct)
  case (1 candles lookback i acc)
  show ?case
  proof (cases "int i < int (length candles) - int lookback")
    case True
    then have lt: "i < length candles - lookback" by linarith
    have upt: "[i ..< length candles - lookback] = i # [i + 1 ..< length candles - lookback]"
      using lt by (simp add: upt_conv_Cons)
    show ?thesis
      using True 1
      by (subst findPivots_loop.simps)
         (simp add: findPivots_window_start upt del: upt_Suc)
  next
    case False
    then have "\<not> i < length candles - lookback" by linarith
    then show ?thesis
      using False by (subst findPivots_loop.simps) simp
  qed
qed

lemma findPivots_filter:
  "findPivots candles lookback =
     \<lparr>highs = filter (highPivotAt candles lookback) [lookback ..< length candles - lookback],
      lows = filter (lowPivotAt candles lookback) [lookback ..< length candles - lookback]\<rparr>"
  by (simp add: findPivots_def findPivots_loop_eq)

lemma highs_findPivots_iff:
  "i \<in> set (highs (findPivots candles lookback)) \<longleftrightarrow>
     lookback \<le> i \<and> i < length candles - lookback \<and> highPivotAt candles lookback i"
  by (auto simp: findPivots_filter)

lemma lows_findPivots_iff:
  "i \<in> set (lows (findPivots candles lookback)) \<longleftrightarrow>
     lookback \<le> i \<and> i < length candles - lookback \<and> lowPivotAt candles lookback i"
  by (auto simp: findPivots_filter)

lemma strict_sorted_highs: "sorted_wrt (<) (highs (findPivots candles lookback))"
  by (simp add: findPivots_filter sorted_wrt_filter)

lemma strict_sorted_lows: "sorted_wrt (<) (lows (findPivots candles lookback))"
  by (simp add: findPivots_filter sorted_wrt_filter)

text \<open>
  Claim C3: an index \<open>i\<close> is a high pivot exactly when \<open>lookback \<le> i < length - lookback\<close>
  and no candle of the window \<open>[i - lookback, i + lookback]\<close> has a higher high; it is a low
  pivot under the symmetric condition on lows. Ties count: an index whose window has equal
  highs throughout is a high pivot. Both sequences are ascending, and neither holds one of
  the first or the last \<open>lookback\<close> indices.
\<close>

theorem findPivots_contract:
  "(i \<in> set (highs (findPivots candles lookback)) \<longleftrightarrow>
      lookback \<le> i \<and> i < length candles - lookback \<and>
      (\<forall>j \<in> {i - lookback .. i + lookback}. high (candles ! j) \<le> high (candles ! i)))
   \<and> (i \<in> set (lows (findPivots candles lookback)) \<longleftrightarrow>
      lookback \<le> i \<and> i < length candles - lookback \<and>
      (\<forall>j \<in> {i - lookback .. i + lookback}. low (candles ! i) \<le> low (candles ! j)))
   \<and> (lookback \<le> i \<and> i < length candles - lookback \<and>
      (\<forall>j \<in> {i - lookback .. i + lookback}. high (candles ! j) = high (candles ! i))
      \<longrightarrow> i \<in> set (highs (findPivots candles lookback)))
   \<and> sorted (highs (findPivots candles lookback))
   \<and> sorted (lows (findPivots candles lookback))
   \<and> (\<forall>k \<in> set (highs (findPivots candles lookback)) \<union> set (lows (findPivots candles lookback)).
        lookback \<le> k \<and> k < length candles - lookback)"
proof -
  have hi: "i \<in> set (highs (findPivots candles lookback)) \<longleftrightarrow>
      lookback \<le> i \<and> i < length candles - lookback \<and>
      (\<forall>j \<in> {i - lookback .. i + lookback}. high (candles ! j) \<le> high (candles ! i))"
    by (simp add: highs_findPivots_iff highPivotAt_def)
  have lo: "i \<in> set (lows (findPivots candles lookback)) \<longleftrightarrow>
      lookback \<le> i \<and> i < length candles - lookback \<and>
      (\<forall>j \<in> {i - lookback .. i + lookback}. low (candles ! i) \<le> low (candles ! j))"
    by (simp add: lows_findPivots_iff lowPivotAt_def)
  have flat: "lookback \<le> i \<and> i < length candles - lookback \<and>
      (\<forall>j \<in> {i - lookback .. i + lookback}. high (candles ! j) = high (candles ! i))
      \<longrightarrow> i \<in> set (highs (findPivots candles lookback))"
    using hi by (blast intro: eq_refl)
  have asc_hi: "sorted (highs (findPivots candles lookback))"
    by (simp add: findPivots_filter sorted_wrt_filter)
  have asc_lo: "sorted (lows (findPivots candles lookback))"
    by (simp add: findPivots_filter sorted_wrt_filter)
  have edge: "\<forall>k \<in> set (highs (findPivots candles lookback)) \<union> set (lows (findPivots candles lookback)).
        lookback \<le> k \<and> k < length candles - lookback"
    by (auto simp: highs_findPivots_iff lows_findPivots_iff)
  from hi lo flat asc_hi asc_lo edge show ?thesis by blast
qed

theorem findPivots_contract_witness:
  "highs (findPivots flat_top_series 2) = [2, 3, 4]
   \<and> (2::nat) \<le> 3 \<and> 3 < length flat_top_series - 2
   \<and> 3 \<in> set (highs (findPivots flat_top_series 2))
   \<and> 3 \<notin> set (lows (findPivots flat_top_series 2))"
proof -
  have ev: "highs (findPivots flat_top_series 2) = [2, 3, 4]"
    by code_simp
  have hyp: "(2::nat) \<le> 3 \<and> 3 < length flat_top_series - 2
     \<and> (\<forall>j \<in> {3 - 2 .. 3 + 2}. high (flat_top_series ! j) = high (flat_top_series ! 3))"
    by code_simp
  have nlo: "\<not> (\<forall>j \<in> {3 - 2 .. 3 + 2}. low (flat_top_series ! 3) \<le> low (flat_top_series ! j))"
    by code_simp
  from findPivots_contract [of 3 flat_top_series 2] hyp nlo
  have "3 \<in> set (highs (findPivots flat_top_series 2))
      \<and> 3 \<notin> set (lows (findPivots flat_top_series 2))"
    by blast
  with ev hyp nlo show ?thesis by blast
qed

text \<open>
  Claim C4, as amended: within each of the two sequences the indices are strictly
  increasing. (The two sequences need not be disjoint.)
\<close>

theorem findPivots_strictly_increasing:
  "sorted_wrt (<) (highs (findPivots candles lookback))
   \<and> sorted_wrt (<) (lows (findPivots candles lookback))"
  by (simp add: findPivots_filter sorted_wrt_filter)

text \<open>
  The candle at index 2 of \<open>outside_bar_series\<close> has the highest high and the lowest low
  of its window: the index is in both sequences.
\<close>

theorem findPivots_disjoint_counterexample:
  "\<not> (set (highs (findPivots outside_bar_series 2))
        \<inter> set (lows (findPivots outside_bar_series 2)) = {})"
proof -
  have "findPivots outside_bar_series 2 = \<lparr>highs = [2], lows = [2]\<rparr>"
    by code_simp
  then show ?thesis by simp
qed

section \<open>Trend classification: what the loops compute\<close>













text \<open>
  Claim C5: with fewer than 60 candles the classifier returns neutral with the reason
  \<^verbatim>\<open>Not enough data\<close> (the specification's "insufficient data"); with at least 60 and
  fewer than 200 candles it returns neutral with the reason \<^verbatim>\<open>Not enough EMA data\<close>,
  whatever the prices. The classifier is a total function with no failing operation, and
  in both cases it returns before any array is read.
\<close>

theorem detectTrendHTF_insufficient_data:
  "(length candles < 60 \<longrightarrow>
      detectTrendHTF candles = \<lparr>trend = ''neutral'', reason = ''Not enough data''\<rparr>)
   \<and> (60 \<le> length candles \<and> length candles < 200 \<longrightarrow>
      detectTrendHTF candles = \<lparr>trend = ''neutral'', reason = ''Not enough EMA data''\<rparr>)"
  by (simp add: detectTrendHTF_def ema_def Let_def)

theorem detectTrendHTF_insufficient_data_witness:
  "detectTrendHTF two_tops_series = \<lparr>trend = ''neutral'', reason = ''Not enough data''\<rparr>
   \<and> detectTrendHTF (series_of (replicate 60 (100, 99))) =
       \<lparr>trend = ''neutral'', reason = ''Not enough EMA data''\<rparr>"
proof -
  have short: "length two_tops_series < 60"
    by (simp add: two_tops_series_def series_of_def)
  have medium: "60 \<le> length (series_of (replicate 60 (100, 99)))
      \<and> length (series_of (replicate 60 (100, 99))) < 200"
    by (simp add: series_of_def)
  from detectTrendHTF_insufficient_data [of two_tops_series] short
    detectTrendHTF_insufficient_data [of "series_of (replicate 60 (100, 99))"] medium
  show ?thesis by blast
qed



section \<open>Tolerance\<close>


lemma approxEqual_no_floor:
  assumes "0 < epsilon"
  shows "\<not> approxEqual epsilon 0 1" and "approxEqual_spec epsilon epsilon 0 1"
  using assms by (simp_all add: approxEqual_def approxEqual_avg_def approxEqual_spec_def Let_def)




section \<open>Signal builder\<close>

lemma js_min_Min: "xs \<noteq> [] \<Longrightarrow> js_min xs = Min (set xs)"
  by (cases xs) (simp_all add: Min.set_eq_fold [symmetric])

lemma js_max_Max: "xs \<noteq> [] \<Longrightarrow> js_max xs = Max (set xs)"
  by (cases xs) (simp_all add: Max.set_eq_fold [symmetric])

lemma direction_buildPatternSignal [simp]:
  "direction (buildPatternSignal d tfLabel p candles) = d"
  by (simp add: buildPatternSignal_def Let_def split: prod.splits)

lemma buildPatternSignal_nonempty:
  assumes "indices p \<noteq> []"
  shows "buildPatternSignal d tfLabel p candles =
    \<lparr>direction = d, pattern = type p, timeframe = tfLabel,
     sig_from = time_at candles (Min (snd ` set (indices p))),
     sig_to = time_at candles (Max (snd ` set (indices p)))\<rparr>"
proof -
  have "map snd (indices p) \<noteq> []"
    using assms by simp
  then have "js_min (map snd (indices p)) = Min (snd ` set (indices p))"
    and "js_max (map snd (indices p)) = Max (snd ` set (indices p))"
    by (simp_all add: js_min_Min js_max_Max)
  then show ?thesis
    using assms by (simp add: buildPatternSignal_def Let_def)
qed

text \<open>
  Claim C9: for a time-ordered series and a match whose span is a non-empty set of indices
  of the series, the window of the signal runs from the time of the smallest index of the
  span to the time of the largest one, so its start is not after its end; it depends on
  the set of indices only, not on the order in which they are listed; and the signal's
  direction is the direction passed in.
\<close>

theorem buildPatternSignal_window:
  assumes "sorted (map time candles)"
    and "indices p \<noteq> []"
    and "\<forall>i \<in> snd ` set (indices p). i < length candles"
  shows "sig_from (buildPatternSignal d tfLabel p candles) =
           Some (time (candles ! Min (snd ` set (indices p))))
    \<and> sig_to (buildPatternSignal d tfLabel p candles) =
           Some (time (candles ! Max (snd ` set (indices p))))
    \<and> time (candles ! Min (snd ` set (indices p)))
         \<le> time (candles ! Max (snd ` set (indices p)))
    \<and> direction (buildPatternSignal d tfLabel p candles) = d
    \<and> (\<forall>p'. type p' = type p \<and> snd ` set (indices p') = snd ` set (indices p)
          \<longrightarrow> buildPatternSignal d tfLabel p' candles = buildPatternSignal d tfLabel p candles)"
proof -
  let ?S = "snd ` set (indices p)"
  have fin: "finite ?S" and ne: "?S \<noteq> {}"
    using assms(2) by simp_all
  have min_in: "Min ?S \<in> ?S" and max_in: "Max ?S \<in> ?S"
    using fin ne by (rule Min_in, rule Max_in)
  have min_lt: "Min ?S < length candles" and max_lt: "Max ?S < length candles"
    using assms(3) min_in max_in by blast+
  have le: "Min ?S \<le> Max ?S"
    using fin ne by simp
  have built: "buildPatternSignal d tfLabel p candles =
    \<lparr>direction = d, pattern = type p, timeframe = tfLabel,
     sig_from = time_at candles (Min ?S), sig_to = time_at candles (Max ?S)\<rparr>"
    by (rule buildPatternSignal_nonempty [OF assms(2)])
  have from_eq: "sig_from (buildPatternSignal d tfLabel p candles) =
      Some (time (candles ! Min ?S))"
    using min_lt by (simp add: built time_at_def)
  have to_eq: "sig_to (buildPatternSignal d tfLabel p candles) =
      Some (time (candles ! Max ?S))"
    using max_lt by (simp add: built time_at_def)
  have "map time candles ! Min ?S \<le> map time candles ! Max ?S"
    using assms(1) le max_lt by (simp add: sorted_nth_mono del: nth_map)
  then have ordered: "time (candles ! Min ?S) \<le> time (candles ! Max ?S)"
    using min_lt max_lt by simp
  have perm: "\<forall>p'. type p' = type p \<and> snd ` set (indices p') = ?S
      \<longrightarrow> buildPatternSignal d tfLabel p' candles = buildPatternSignal d tfLabel p candles"
  proof (intro allI impI, elim conjE)
    fix p' :: pattern_result
    assume ty: "type p' = type p" and same: "snd ` set (indices p') = ?S"
    have ne': "indices p' \<noteq> []"
      using same ne by auto
    show "buildPatternSignal d tfLabel p' candles = buildPatternSignal d tfLabel p candles"
      by (simp only: buildPatternSignal_nonempty [OF ne'] built same ty)
  qed
  have dir: "direction (buildPatternSignal d tfLabel p candles) = d"
    by simp
  show ?thesis
    by (intro conjI) (rule from_eq, rule to_eq, rule ordered, rule dir, rule perm)
qed

theorem buildPatternSignal_window_witness:
  "buildPatternSignal ''bearish'' ''1h''
      \<lparr>type = ''M-top'', indices = [(''h2Idx'', 10), (''lIdx'', 4), (''h1Idx'', 2)]\<rparr>
      three_tops_series
    = \<lparr>direction = ''bearish'', pattern = ''M-top'', timeframe = ''1h'',
        sig_from = Some 7200000, sig_to = Some 36000000\<rparr>
   \<and> sig_from (buildPatternSignal ''bearish'' ''1h''
      \<lparr>type = ''M-top'', indices = [(''h2Idx'', 10), (''lIdx'', 4), (''h1Idx'', 2)]\<rparr>
      three_tops_series) = Some (time (three_tops_series ! 2))
   \<and> sig_to (buildPatternSignal ''bearish'' ''1h''
      \<lparr>type = ''M-top'', indices = [(''h2Idx'', 10), (''lIdx'', 4), (''h1Idx'', 2)]\<rparr>
      three_tops_series) = Some (time (three_tops_series ! 10))"
proof -
  let ?p = "\<lparr>type = ''M-top'', indices = [(''h2Idx'', 10), (''lIdx'', 4), (''h1Idx'', 2::nat)]\<rparr>"
  have ordered: "sorted (map time three_tops_series)"
    by code_simp
  have ne: "indices ?p \<noteq> []"
    by simp
  have len: "length three_tops_series = 17"
    by (simp add: three_tops_series_def series_of_def)
  have inside: "\<forall>i \<in> snd ` set (indices ?p). i < length three_tops_series"
    by (simp add: len)
  have mn: "Min (snd ` set (indices ?p)) = 2" and mx: "Max (snd ` set (indices ?p)) = 10"
    by simp_all
  have ev: "buildPatternSignal ''bearish'' ''1h'' ?p three_tops_series
    = \<lparr>direction = ''bearish'', pattern = ''M-top'', timeframe = ''1h'',
        sig_from = Some 7200000, sig_to = Some 36000000\<rparr>"
    by code_simp
  from buildPatternSignal_window [OF ordered ne inside, of "''bearish''" "''1h''"] ev
  show ?thesis
    unfolding mn mx by simp
qed

section \<open>Confluence gate\<close>

text \<open>
  Claim C1: when both trends are bearish the gate emits a bearish signal built from the
  M-top match if there is one, else from the Head-and-Shoulders match, and nothing when
  there is neither; when both are bullish it emits a bullish signal built from the
  Inverted-M match if there is one, else from the Inverse Head-and-Shoulders match; in
  every other case it emits nothing, whatever the detectors found. An emitted signal
  carries the direction both trends agree on.
\<close>

theorem detectPatternWithConfluence_gate:
  "(trend dayTrend = ''bearish'' \<and> trend weekTrend = ''bearish'' \<longrightarrow>
      detectPatternWithConfluence candles tfLabel dayTrend weekTrend =
        map_option (\<lambda>p. buildPatternSignal ''bearish'' tfLabel p candles)
          (case detectMTop candles of
             Some m \<Rightarrow> Some m
           | None \<Rightarrow> detectHeadAndShoulders candles))
   \<and> (trend dayTrend = ''bullish'' \<and> trend weekTrend = ''bullish'' \<longrightarrow>
      detectPatternWithConfluence candles tfLabel dayTrend weekTrend =
        map_option (\<lambda>p. buildPatternSignal ''bullish'' tfLabel p candles)
          (case detectInvertedM candles of
             Some m \<Rightarrow> Some m
           | None \<Rightarrow> detectInverseHeadAndShoulders candles))
   \<and> (\<not> (trend dayTrend = ''bearish'' \<and> trend weekTrend = ''bearish'')
        \<and> \<not> (trend dayTrend = ''bullish'' \<and> trend weekTrend = ''bullish'') \<longrightarrow>
      detectPatternWithConfluence candles tfLabel dayTrend weekTrend = None)
   \<and> (\<forall>s. detectPatternWithConfluence candles tfLabel dayTrend weekTrend = Some s \<longrightarrow>
        trend dayTrend = trend weekTrend \<and> direction s = trend dayTrend
        \<and> (direction s = ''bearish'' \<or> direction s = ''bullish''))"
proof -
  have dir: "direction (buildPatternSignal d tfLabel p candles) = d" for d p
    by (simp add: buildPatternSignal_def Let_def split: prod.splits)
  have bear: "trend dayTrend = ''bearish'' \<and> trend weekTrend = ''bearish'' \<longrightarrow>
      detectPatternWithConfluence candles tfLabel dayTrend weekTrend =
        map_option (\<lambda>p. buildPatternSignal ''bearish'' tfLabel p candles)
          (case detectMTop candles of
             Some m \<Rightarrow> Some m
           | None \<Rightarrow> detectHeadAndShoulders candles)"
    by (cases "detectMTop candles"; cases "detectHeadAndShoulders candles")
       (simp_all add: detectPatternWithConfluence_def)
  have bull: "trend dayTrend = ''bullish'' \<and> trend weekTrend = ''bullish'' \<longrightarrow>
      detectPatternWithConfluence candles tfLabel dayTrend weekTrend =
        map_option (\<lambda>p. buildPatternSignal ''bullish'' tfLabel p candles)
          (case detectInvertedM candles of
             Some m \<Rightarrow> Some m
           | None \<Rightarrow> detectInverseHeadAndShoulders candles)"
    by (cases "detectInvertedM candles"; cases "detectInverseHeadAndShoulders candles")
       (simp_all add: detectPatternWithConfluence_def)
  have other: "\<not> (trend dayTrend = ''bearish'' \<and> trend weekTrend = ''bearish'')
        \<and> \<not> (trend dayTrend = ''bullish'' \<and> trend weekTrend = ''bullish'') \<longrightarrow>
      detectPatternWithConfluence candles tfLabel dayTrend weekTrend = None"
    by (simp add: detectPatternWithConfluence_def)
  have agreed: "\<forall>s. detectPatternWithConfluence candles tfLabel dayTrend weekTrend = Some s \<longrightarrow>
        trend dayTrend = trend weekTrend \<and> direction s = trend dayTrend
        \<and> (direction s = ''bearish'' \<or> direction s = ''bullish'')"
    by (auto simp: detectPatternWithConfluence_def Let_def dir
          split: option.splits if_splits)
  show ?thesis
    by (intro conjI) (rule bear, rule bull, rule other, rule agreed)
qed

theorem detectPatternWithConfluence_gate_witness:
  "detectPatternWithConfluence three_tops_series ''1h''
      \<lparr>trend = ''bearish'', reason = ''Close < EMA50 < EMA200''\<rparr>
      \<lparr>trend = ''bearish'', reason = ''Close < EMA50 < EMA200''\<rparr>
     = Some \<lparr>direction = ''bearish'', pattern = ''M-top'', timeframe = ''1h'',
             sig_from = Some 7200000, sig_to = Some 36000000\<rparr>
   \<and> detectPatternWithConfluence three_bottoms_series ''1h''
      \<lparr>trend = ''bullish'', reason = ''Close > EMA50 > EMA200''\<rparr>
      \<lparr>trend = ''bullish'', reason = ''Close > EMA50 > EMA200''\<rparr>
     = Some \<lparr>direction = ''bullish'', pattern = ''Inverted M'', timeframe = ''1h'',
             sig_from = Some 7200000, sig_to = Some 36000000\<rparr>
   \<and> detectPatternWithConfluence three_tops_series ''1h''
      \<lparr>trend = ''bullish'', reason = ''Close > EMA50 > EMA200''\<rparr>
      \<lparr>trend = ''bearish'', reason = ''Close < EMA50 < EMA200''\<rparr>
     = None
   \<and> detectPatternWithConfluence three_tops_series ''1h''
      \<lparr>trend = ''sideways'', reason = ''Mixed EMAs''\<rparr>
      \<lparr>trend = ''bearish'', reason = ''Close < EMA50 < EMA200''\<rparr>
     = None"
proof -
  let ?bear = "\<lparr>trend = ''bearish'', reason = ''Close < EMA50 < EMA200''\<rparr>"
  let ?bull = "\<lparr>trend = ''bullish'', reason = ''Close > EMA50 > EMA200''\<rparr>"
  let ?side = "\<lparr>trend = ''sideways'', reason = ''Mixed EMAs''\<rparr>"
  have top: "detectMTop three_tops_series =
      Some \<lparr>type = ''M-top'', indices = [(''h1Idx'', 2), (''h2Idx'', 10), (''lIdx'', 4)]\<rparr>"
    by code_simp
  have bottom: "detectInvertedM three_bottoms_series =
      Some \<lparr>type = ''Inverted M'', indices = [(''l1Idx'', 2), (''l2Idx'', 10), (''hIdx'', 4)]\<rparr>"
    by code_simp
  have sig_top: "buildPatternSignal ''bearish'' ''1h''
      \<lparr>type = ''M-top'', indices = [(''h1Idx'', 2), (''h2Idx'', 10), (''lIdx'', 4)]\<rparr>
      three_tops_series
     = \<lparr>direction = ''bearish'', pattern = ''M-top'', timeframe = ''1h'',
        sig_from = Some 7200000, sig_to = Some 36000000\<rparr>"
    by code_simp
  have sig_bottom: "buildPatternSignal ''bullish'' ''1h''
      \<lparr>type = ''Inverted M'', indices = [(''l1Idx'', 2), (''l2Idx'', 10), (''hIdx'', 4)]\<rparr>
      three_bottoms_series
     = \<lparr>direction = ''bullish'', pattern = ''Inverted M'', timeframe = ''1h'',
        sig_from = Some 7200000, sig_to = Some 36000000\<rparr>"
    by code_simp
  have c1: "detectPatternWithConfluence three_tops_series ''1h'' ?bear ?bear
     = Some \<lparr>direction = ''bearish'', pattern = ''M-top'', timeframe = ''1h'',
             sig_from = Some 7200000, sig_to = Some 36000000\<rparr>"
    using detectPatternWithConfluence_gate [of ?bear ?bear three_tops_series "''1h''"]
    by (simp add: top sig_top)
  have c2: "detectPatternWithConfluence three_bottoms_series ''1h'' ?bull ?bull
     = Some \<lparr>direction = ''bullish'', pattern = ''Inverted M'', timeframe = ''1h'',
             sig_from = Some 7200000, sig_to = Some 36000000\<rparr>"
    using detectPatternWithConfluence_gate [of ?bull ?bull three_bottoms_series "''1h''"]
    by (simp add: bottom sig_bottom)
  have c3: "detectPatternWithConfluence three_tops_series ''1h'' ?bull ?bear = None"
    using detectPatternWithConfluence_gate [of ?bull ?bear three_tops_series "''1h''"]
    by simp
  have c4: "detectPatternWithConfluence three_tops_series ''1h'' ?side ?bear = None"
    using detectPatternWithConfluence_gate [of ?side ?bear three_tops_series "''1h''"]
    by simp
  show ?thesis
    by (intro conjI) (rule c1, rule c2, rule c3, rule c4)
qed

section \<open>The M-top detector on two tops\<close>

lemma detectMTop_two_highs:
  assumes "length (highs (findPivots candles 2)) = 2"
  shows "detectMTop candles = None"
proof -
  have "length (slice_last 4 (highs (findPivots candles 2))) = 2"
    using assms by (simp add: slice_last_def)
  then show ?thesis
    by (simp add: detectMTop_def Let_def detectMTop_loop.simps [of _ _ _ 0])
qed

text \<open>
  Claim C2 on \<open>two_tops_series\<close>: the only two high pivots, 1000 at index 2 and 1010 at
  index 6, are exactly 1\% apart and within the 1.5\% tolerance, the only low pivot, 980
  at index 4, lies between them, 2\% below the first top and more than 1\% below the
  higher one; yet the detector returns no match, because its loop starts at
  \<open>length lastHighs - 2\<close> and stops before index 1, and so never reads the pair that ends
  in the last high pivot.
\<close>

theorem detectMTop_two_tops_series:
  "highs (findPivots two_tops_series 2) = [2, 6]
   \<and> lows (findPivots two_tops_series 2) = [4]
   \<and> high (two_tops_series ! 6) = high (two_tops_series ! 2) * 1.01
   \<and> low (two_tops_series ! 4) = high (two_tops_series ! 2) * 0.98
   \<and> approxEqual (high (two_tops_series ! 2)) (high (two_tops_series ! 6)) 0.015
   \<and> \<not> js_less (js_div (max (high (two_tops_series ! 2)) (high (two_tops_series ! 6))
                            - low (two_tops_series ! 4))
                         (max (high (two_tops_series ! 2)) (high (two_tops_series ! 6)))) 0.01
   \<and> detectMTop two_tops_series = None"
proof -
  have pv: "findPivots two_tops_series 2 = \<lparr>highs = [2, 6], lows = [4]\<rparr>"
    by code_simp
  have h2: "high (two_tops_series ! 2) = 1000" and h6: "high (two_tops_series ! 6) = 1010"
    and l4: "low (two_tops_series ! 4) = 980"
    by code_simp+
  have none: "detectMTop two_tops_series = None"
    by (rule detectMTop_two_highs) (simp add: pv)
  show ?thesis
    unfolding pv h2 h6 l4 none
    by (simp add: approxEqual_def approxEqual_avg_def js_div_def)
qed

section \<open>The M-top and Inverted-M detectors: the returned span\<close>

lemma hd_sorted_least:
  fixes xs :: "nat list"
  assumes "sorted_wrt (<) xs" and "x \<in> set xs"
  shows "hd xs \<le> x"
proof (cases xs)
  case Nil
  with assms(2) show ?thesis by simp
next
  case (Cons y ys)
  with assms show ?thesis by auto
qed

lemma hd_filter_least:
  fixes xs :: "nat list"
  assumes "sorted_wrt (<) xs" and "x \<in> set xs" and "P x"
  shows "hd (filter P xs) \<le> x"
  by (rule hd_sorted_least) (simp_all add: assms sorted_wrt_filter)

lemma set_slice_last: "set (slice_last n xs) \<subseteq> set xs"
  by (simp add: slice_last_def set_drop_subset)

lemma detectMTop_loop_Some:
  assumes "detectMTop_loop candles lastHighs lows' (int n) = Some m"
  shows "\<exists>j. 1 \<le> j \<and> j \<le> n
    \<and> filter (\<lambda>x. lastHighs ! (j - 1) < x \<and> x < lastHighs ! j) lows' \<noteq> []
    \<and> m = \<lparr>type = ''M-top'',
            indices = [(''h1Idx'', lastHighs ! (j - 1)), (''h2Idx'', lastHighs ! j),
                       (''lIdx'', hd (filter (\<lambda>x. lastHighs ! (j - 1) < x \<and> x < lastHighs ! j) lows'))]\<rparr>"
  using assms
proof (induction n)
  case 0
  then show ?case
    by (subst (asm) detectMTop_loop.simps) simp
next
  case (Suc n)
  let ?mid = "filter (\<lambda>x. lastHighs ! n < x \<and> x < lastHighs ! Suc n) lows'"
  from Suc.prems
  have "detectMTop_loop candles lastHighs lows' (int n) = Some m
    \<or> (?mid \<noteq> []
        \<and> m = \<lparr>type = ''M-top'',
               indices = [(''h1Idx'', lastHighs ! n), (''h2Idx'', lastHighs ! Suc n),
                          (''lIdx'', hd ?mid)]\<rparr>)"
    by (subst (asm) detectMTop_loop.simps)
       (simp add: Let_def hd_conv_nth nat_add_distrib split: if_splits)
  then show ?case
  proof
    assume "detectMTop_loop candles lastHighs lows' (int n) = Some m"
    from Suc.IH [OF this] obtain j where "1 \<le> j" "j \<le> n"
      "filter (\<lambda>x. lastHighs ! (j - 1) < x \<and> x < lastHighs ! j) lows' \<noteq> []"
      "m = \<lparr>type = ''M-top'',
            indices = [(''h1Idx'', lastHighs ! (j - 1)), (''h2Idx'', lastHighs ! j),
                       (''lIdx'', hd (filter (\<lambda>x. lastHighs ! (j - 1) < x \<and> x < lastHighs ! j) lows'))]\<rparr>"
      by blast
    then show ?thesis
      by (intro exI [of _ j]) simp
  next
    assume "?mid \<noteq> []
        \<and> m = \<lparr>type = ''M-top'',
               indices = [(''h1Idx'', lastHighs ! n), (''h2Idx'', lastHighs ! Suc n),
                          (''lIdx'', hd ?mid)]\<rparr>"
    then show ?thesis
      by (intro exI [of _ "Suc n"]) simp
  qed
qed

lemma detectInvertedM_loop_Some:
  assumes "detectInvertedM_loop candles lastLows highs' (int n) = Some m"
  shows "\<exists>j. 1 \<le> j \<and> j \<le> n
    \<and> filter (\<lambda>x. lastLows ! (j - 1) < x \<and> x < lastLows ! j) highs' \<noteq> []
    \<and> m = \<lparr>type = ''Inverted M'',
            indices = [(''l1Idx'', lastLows ! (j - 1)), (''l2Idx'', lastLows ! j),
                       (''hIdx'', hd (filter (\<lambda>x. lastLows ! (j - 1) < x \<and> x < lastLows ! j) highs'))]\<rparr>"
  using assms
proof (induction n)
  case 0
  then show ?case
    by (subst (asm) detectInvertedM_loop.simps) simp
next
  case (Suc n)
  let ?mid = "filter (\<lambda>x. lastLows ! n < x \<and> x < lastLows ! Suc n) highs'"
  from Suc.prems
  have "detectInvertedM_loop candles lastLows highs' (int n) = Some m
    \<or> (?mid \<noteq> []
        \<and> m = \<lparr>type = ''Inverted M'',
               indices = [(''l1Idx'', lastLows ! n), (''l2Idx'', lastLows ! Suc n),
                          (''hIdx'', hd ?mid)]\<rparr>)"
    by (subst (asm) detectInvertedM_loop.simps)
       (simp add: Let_def hd_conv_nth nat_add_distrib split: if_splits)
  then show ?case
  proof
    assume "detectInvertedM_loop candles lastLows highs' (int n) = Some m"
    from Suc.IH [OF this] obtain j where "1 \<le> j" "j \<le> n"
      "filter (\<lambda>x. lastLows ! (j - 1) < x \<and> x < lastLows ! j) highs' \<noteq> []"
      "m = \<lparr>type = ''Inverted M'',
            indices = [(''l1Idx'', lastLows ! (j - 1)), (''l2Idx'', lastLows ! j),
                       (''hIdx'', hd (filter (\<lambda>x. lastLows ! (j - 1) < x \<and> x < lastLows ! j) highs'))]\<rparr>"
      by blast
    then show ?thesis
      by (intro exI [of _ j]) simp
  next
    assume "?mid \<noteq> []
        \<and> m = \<lparr>type = ''Inverted M'',
               indices = [(''l1Idx'', lastLows ! n), (''l2Idx'', lastLows ! Suc n),
                          (''hIdx'', hd ?mid)]\<rparr>"
    then show ?thesis
      by (intro exI [of _ "Suc n"]) simp
  qed
qed

lemma span_first_between:
  fixes mids :: "nat list"
  assumes sorted: "sorted_wrt (<) mids"
    and ne: "filter (\<lambda>x. a < x \<and> x < b) mids \<noteq> []"
  shows "hd (filter (\<lambda>x. a < x \<and> x < b) mids) \<in> set mids"
    and "a < hd (filter (\<lambda>x. a < x \<and> x < b) mids)"
    and "hd (filter (\<lambda>x. a < x \<and> x < b) mids) < b"
    and "\<forall>x \<in> set mids. a < x \<and> x < b \<longrightarrow> hd (filter (\<lambda>x. a < x \<and> x < b) mids) \<le> x"
proof -
  let ?f = "filter (\<lambda>x. a < x \<and> x < b) mids"
  have "hd ?f \<in> set ?f"
    using ne by (rule hd_in_set)
  then show "hd ?f \<in> set mids" and "a < hd ?f" and "hd ?f < b"
    by simp_all
  show "\<forall>x \<in> set mids. a < x \<and> x < b \<longrightarrow> hd ?f \<le> x"
    using hd_filter_least [OF sorted, where P = "\<lambda>x. a < x \<and> x < b"] by blast
qed

lemma detectMTop_Some:
  assumes "detectMTop candles = Some m"
  shows "\<exists>h1 h2 l.
     indices m = [(''h1Idx'', h1), (''h2Idx'', h2), (''lIdx'', l)]
     \<and> h1 \<in> set (highs (findPivots candles 2)) \<and> h2 \<in> set (highs (findPivots candles 2))
     \<and> l \<in> set (lows (findPivots candles 2)) \<and> h1 < l \<and> l < h2
     \<and> (\<forall>x \<in> set (lows (findPivots candles 2)). h1 < x \<and> x < h2 \<longrightarrow> l \<le> x)"
proof -
  let ?p = "findPivots candles 2"
  let ?lh = "slice_last 4 (highs ?p)"
  from assms have len: "2 \<le> length (highs ?p)"
    and run: "detectMTop_loop candles ?lh (lows ?p) (int (length ?lh) - 2) = Some m"
    by (simp_all add: detectMTop_def Let_def split: if_splits)
  have len_lh: "2 \<le> length ?lh"
    using len by (simp add: slice_last_def)
  then have eq: "int (length ?lh) - 2 = int (length ?lh - 2)"
    by simp
  have run': "detectMTop_loop candles ?lh (lows ?p) (int (length ?lh - 2)) = Some m"
    using run by (simp only: eq)
  from detectMTop_loop_Some [OF run'] obtain j where j: "1 \<le> j" "j \<le> length ?lh - 2"
    and ne: "filter (\<lambda>x. ?lh ! (j - 1) < x \<and> x < ?lh ! j) (lows ?p) \<noteq> []"
    and m: "m = \<lparr>type = ''M-top'',
            indices = [(''h1Idx'', ?lh ! (j - 1)), (''h2Idx'', ?lh ! j),
                       (''lIdx'', hd (filter (\<lambda>x. ?lh ! (j - 1) < x \<and> x < ?lh ! j) (lows ?p)))]\<rparr>"
    by blast
  have "j - 1 < length ?lh" and "j < length ?lh"
    using j len_lh by simp_all
  then have "?lh ! (j - 1) \<in> set ?lh" and "?lh ! j \<in> set ?lh"
    by (simp_all only: nth_mem)
  then have outer: "?lh ! (j - 1) \<in> set (highs ?p)" "?lh ! j \<in> set (highs ?p)"
    using set_slice_last [of 4 "highs ?p"] by blast+
  note first = span_first_between [OF strict_sorted_lows ne]
  show ?thesis
    by (intro exI [of _ "?lh ! (j - 1)"] exI [of _ "?lh ! j"]
        exI [of _ "hd (filter (\<lambda>x. ?lh ! (j - 1) < x \<and> x < ?lh ! j) (lows ?p))"] conjI)
       (simp add: m, rule outer, rule outer, rule first, rule first, rule first, rule first)
qed

lemma detectInvertedM_Some:
  assumes "detectInvertedM candles = Some m"
  shows "\<exists>l1 l2 h.
     indices m = [(''l1Idx'', l1), (''l2Idx'', l2), (''hIdx'', h)]
     \<and> l1 \<in> set (lows (findPivots candles 2)) \<and> l2 \<in> set (lows (findPivots candles 2))
     \<and> h \<in> set (highs (findPivots candles 2)) \<and> l1 < h \<and> h < l2
     \<and> (\<forall>x \<in> set (highs (findPivots candles 2)). l1 < x \<and> x < l2 \<longrightarrow> h \<le> x)"
proof -
  let ?p = "findPivots candles 2"
  let ?ll = "slice_last 4 (lows ?p)"
  from assms have len: "2 \<le> length (lows ?p)"
    and run: "detectInvertedM_loop candles ?ll (highs ?p) (int (length ?ll) - 2) = Some m"
    by (simp_all add: detectInvertedM_def Let_def split: if_splits)
  have len_ll: "2 \<le> length ?ll"
    using len by (simp add: slice_last_def)
  then have eq: "int (length ?ll) - 2 = int (length ?ll - 2)"
    by simp
  have run': "detectInvertedM_loop candles ?ll (highs ?p) (int (length ?ll - 2)) = Some m"
    using run by (simp only: eq)
  from detectInvertedM_loop_Some [OF run'] obtain j where j: "1 \<le> j" "j \<le> length ?ll - 2"
    and ne: "filter (\<lambda>x. ?ll ! (j - 1) < x \<and> x < ?ll ! j) (highs ?p) \<noteq> []"
    and m: "m = \<lparr>type = ''Inverted M'',
            indices = [(''l1Idx'', ?ll ! (j - 1)), (''l2Idx'', ?ll ! j),
                       (''hIdx'', hd (filter (\<lambda>x. ?ll ! (j - 1) < x \<and> x < ?ll ! j) (highs ?p)))]\<rparr>"
    by blast
  have "j - 1 < length ?ll" and "j < length ?ll"
    using j len_ll by simp_all
  then have "?ll ! (j - 1) \<in> set ?ll" and "?ll ! j \<in> set ?ll"
    by (simp_all only: nth_mem)
  then have outer: "?ll ! (j - 1) \<in> set (lows ?p)" "?ll ! j \<in> set (lows ?p)"
    using set_slice_last [of 4 "lows ?p"] by blast+
  note first = span_first_between [OF strict_sorted_highs ne]
  show ?thesis
    by (intro exI [of _ "?ll ! (j - 1)"] exI [of _ "?ll ! j"]
        exI [of _ "hd (filter (\<lambda>x. ?ll ! (j - 1) < x \<and> x < ?ll ! j) (highs ?p))"] conjI)
       (simp add: m, rule outer, rule outer, rule first, rule first, rule first, rule first)
qed

lemma detectMTop_skips_last_high:
  assumes "detectMTop candles = Some m"
  shows "\<exists>h2. map_of (indices m) ''h2Idx'' = Some h2
    \<and> h2 < last (highs (findPivots candles 2))"
proof -
  let ?p = "findPivots candles 2"
  let ?lh = "slice_last 4 (highs ?p)"
  from assms have len: "2 \<le> length (highs ?p)"
    and run: "detectMTop_loop candles ?lh (lows ?p) (int (length ?lh) - 2) = Some m"
    by (simp_all add: detectMTop_def Let_def split: if_splits)
  have len_lh: "2 \<le> length ?lh"
    using len by (simp add: slice_last_def)
  then have eq: "int (length ?lh) - 2 = int (length ?lh - 2)"
    by simp
  have run': "detectMTop_loop candles ?lh (lows ?p) (int (length ?lh - 2)) = Some m"
    using run by (simp only: eq)
  from detectMTop_loop_Some [OF run'] obtain j where j: "1 \<le> j" "j \<le> length ?lh - 2"
    and m: "map_of (indices m) ''h2Idx'' = Some (?lh ! j)"
    by auto
  have sorted: "sorted_wrt (<) ?lh"
    unfolding slice_last_def by (rule sorted_wrt_drop) (rule strict_sorted_highs)
  have "j < length ?lh - 1" and "length ?lh - 1 < length ?lh"
    using j len_lh by simp_all
  then have "?lh ! j < ?lh ! (length ?lh - 1)"
    by (rule sorted_wrt_nth_less [OF sorted])
  also have "?lh ! (length ?lh - 1) = last ?lh"
    using len_lh by (subst last_conv_nth) auto
  also have "last ?lh = last (highs ?p)"
    using len by (simp add: slice_last_def)
  finally show ?thesis
    using m by blast
qed

text \<open>
  Claim C10: in a match returned by the M-top detector, the trough \<^verbatim>\<open>lIdx\<close> is a low
  pivot strictly between the two high pivots of the span and no low pivot between them has
  a smaller index: it is the first intervening low pivot, whatever its depth. The same
  holds for the peak \<^verbatim>\<open>hIdx\<close> of a match returned by the Inverted-M detector, among the
  high pivots between its two low pivots.
\<close>

theorem double_pattern_first_intervening_pivot:
  "(detectMTop candles = Some m \<longrightarrow>
      (\<exists>h1 h2 l.
         indices m = [(''h1Idx'', h1), (''h2Idx'', h2), (''lIdx'', l)]
         \<and> h1 \<in> set (highs (findPivots candles 2)) \<and> h2 \<in> set (highs (findPivots candles 2))
         \<and> l \<in> set (lows (findPivots candles 2)) \<and> h1 < l \<and> l < h2
         \<and> (\<forall>x \<in> set (lows (findPivots candles 2)). h1 < x \<and> x < h2 \<longrightarrow> l \<le> x)))
   \<and> (detectInvertedM candles = Some m \<longrightarrow>
      (\<exists>l1 l2 h.
         indices m = [(''l1Idx'', l1), (''l2Idx'', l2), (''hIdx'', h)]
         \<and> l1 \<in> set (lows (findPivots candles 2)) \<and> l2 \<in> set (lows (findPivots candles 2))
         \<and> h \<in> set (highs (findPivots candles 2)) \<and> l1 < h \<and> h < l2
         \<and> (\<forall>x \<in> set (highs (findPivots candles 2)). l1 < x \<and> x < l2 \<longrightarrow> h \<le> x)))"
  using detectMTop_Some [of candles m] detectInvertedM_Some [of candles m] by blast

theorem double_pattern_first_intervening_pivot_witness:
  "detectMTop three_tops_series =
      Some \<lparr>type = ''M-top'', indices = [(''h1Idx'', 2), (''h2Idx'', 10), (''lIdx'', 4)]\<rparr>
   \<and> lows (findPivots three_tops_series 2) = [4, 7, 12]
   \<and> low (three_tops_series ! 7) < low (three_tops_series ! 4)
   \<and> 4 \<in> set (lows (findPivots three_tops_series 2))
   \<and> detectInvertedM three_bottoms_series =
      Some \<lparr>type = ''Inverted M'', indices = [(''l1Idx'', 2), (''l2Idx'', 10), (''hIdx'', 4)]\<rparr>
   \<and> highs (findPivots three_bottoms_series 2) = [4, 7, 12]
   \<and> high (three_bottoms_series ! 4) < high (three_bottoms_series ! 7)
   \<and> 4 \<in> set (highs (findPivots three_bottoms_series 2))"
proof -
  let ?top = "\<lparr>type = ''M-top'', indices = [(''h1Idx'', 2), (''h2Idx'', 10), (''lIdx'', 4::nat)]\<rparr>"
  let ?bottom = "\<lparr>type = ''Inverted M'', indices = [(''l1Idx'', 2), (''l2Idx'', 10), (''hIdx'', 4::nat)]\<rparr>"
  have top: "detectMTop three_tops_series = Some ?top"
    by code_simp
  have bottom: "detectInvertedM three_bottoms_series = Some ?bottom"
    by code_simp
  have lows: "lows (findPivots three_tops_series 2) = [4, 7, 12]"
    by code_simp
  have highs: "highs (findPivots three_bottoms_series 2) = [4, 7, 12]"
    by code_simp
  have deeper: "low (three_tops_series ! 7) < low (three_tops_series ! 4)"
    by code_simp
  have higher: "high (three_bottoms_series ! 4) < high (three_bottoms_series ! 7)"
    by code_simp
  from double_pattern_first_intervening_pivot [of three_tops_series ?top] top
  have "4 \<in> set (lows (findPivots three_tops_series 2))"
    by auto
  moreover
  from double_pattern_first_intervening_pivot [of three_bottoms_series ?bottom] bottom
  have "4 \<in> set (highs (findPivots three_bottoms_series 2))"
    by auto
  ultimately show ?thesis
    using top bottom lows highs deeper higher by blast
qed

section \<open>The Head-and-Shoulders detector as a search\<close>








end
